theory Spec2Isabelle
  imports Main
begin

section \<open>The relay engine of ws-relay (relay.go)\<close>

text \<open>
  The theory embeds \<^verbatim>\<open>relay.go\<close>: the token table, the four operations of
  \<^verbatim>\<open>WSRelay\<close> (\<^verbatim>\<open>RegisterToken\<close>, \<^verbatim>\<open>RegisterSession\<close>, \<^verbatim>\<open>SendData\<close>,
  \<^verbatim>\<open>DisposeToken\<close>) and the expiration callback that \<^verbatim>\<open>NewWSRelay\<close> installs.
  One call runs at a time: locks, goroutines and the logger are left out.
\<close>

subsection \<open>Values\<close>

text \<open>
  A Go \<^verbatim>\<open>string\<close> and a \<^verbatim>\<open>[]byte\<close> are both lists of 8-bit characters.
  An \<^verbatim>\<open>error\<close> is either the sentinel \<^verbatim>\<open>io.EOF\<close>, which the code compares by
  identity, or any other error value, kept with its message (\<^verbatim>\<open>errors.New\<close>).
  A call either returns its \<^verbatim>\<open>error\<close> result (\<open>None\<close> is Go's \<^verbatim>\<open>nil\<close>) or panics.
\<close>

type_synonym token = string
type_synonym bytes = string

datatype error = EOF | New string

datatype outcome = Return "error option" | Panic

text \<open>
  \<^verbatim>\<open>*melody.Session\<close> is a pointer into the sessions that the melody library keeps: a
  reference, \<open>None\<close> for \<^verbatim>\<open>nil\<close>. The library is not part of the repository, so the
  state of a session is a type parameter \<open>'s\<close> and its two methods that the relay
  calls are parameters too: \<open>Write M c m\<close> is the error that \<^verbatim>\<open>Write\<close> returns and the
  session's own state after the call, when the slice it is handed holds the bytes \<open>m\<close>
  at the time of the call.
\<close>

type_synonym session_ref = nat

text \<open>
  A \<^verbatim>\<open>[]byte\<close> made by \<^verbatim>\<open>make\<close> is an array in memory: a reference into the arrays
  made so far. The slice \<^verbatim>\<open>buf[:n]\<close> is the array it points into and its length; it
  holds whatever the first \<open>n\<close> bytes of the array are when it is looked at.
\<close>

type_synonym buf_ref = nat
type_synonym slice = "buf_ref \<times> nat"

definition slice_bytes :: "(buf_ref \<Rightarrow> bytes) \<Rightarrow> slice \<Rightarrow> bytes" where
  "slice_bytes as sl = take (snd sl) (as (fst sl))"

record 's melody =
  IsClosed :: "'s \<Rightarrow> bool"
  Write :: "'s \<Rightarrow> bytes \<Rightarrow> error option \<times> 's"

text \<open>
  \<^verbatim>\<open>type wsRelayConn struct { session *melody.Session }\<close>. The cache holds values of
  type \<^verbatim>\<open>interface{}\<close>: a \<^verbatim>\<open>*wsRelayConn\<close> or a value of some other dynamic type.
\<close>

record wsRelayConn =
  session :: "session_ref option"

datatype cache_value = Conn wsRelayConn | Foreign

definition newWSRelayConn :: "session_ref option \<Rightarrow> wsRelayConn" where
  "newWSRelayConn s = \<lparr>session = s\<rparr>"

text \<open>The type assertion \<^verbatim>\<open>conn, ok := value.(*wsRelayConn)\<close>: \<open>Some conn\<close> when \<^verbatim>\<open>ok\<close>.\<close>

fun assert_wsRelayConn :: "cache_value \<Rightarrow> wsRelayConn option" where
  "assert_wsRelayConn (Conn c) = Some c"
| "assert_wsRelayConn Foreign = None"

text \<open>
  \<^verbatim>\<open>WSRelay\<close>: the cache, the sessions reachable through \<^verbatim>\<open>Melody\<close>, and the five
  Prometheus collectors. A counter holds the sum of its increments; the histogram is kept
  as the list of its observations, oldest first. Every value added is a natural number
  (\<^verbatim>\<open>float64(n)\<close> with \<open>n \<le> 4096\<close>, or 1).

  The last three fields are the memory that the calls of SendData work on, not fields of
  the struct: the byte arrays made so far (\<open>allocated\<close> of them), and for each session
  the slices it has been handed by the calls of \<^verbatim>\<open>Write\<close> that returned \<^verbatim>\<open>nil\<close>,
  oldest first.
\<close>

record 's WSRelay =
  cache :: "token \<rightharpoonup> cache_value"
  sessions :: "session_ref \<Rightarrow> 's"
  tokenCounter :: nat
  tokenRemovedCounter :: nat
  messageSizeHistogram :: "nat list"
  tokenBytesCounter :: "token \<Rightarrow> nat"
  tokenMessagesCounter :: "token \<Rightarrow> nat"
  arrays :: "buf_ref \<Rightarrow> bytes"
  allocated :: nat
  handed :: "session_ref \<Rightarrow> slice list"

definition NewWSRelay :: "(session_ref \<Rightarrow> 's) \<Rightarrow> 's WSRelay" where
  "NewWSRelay ss =
     \<lparr>cache = Map.empty, sessions = ss, tokenCounter = 0, tokenRemovedCounter = 0,
      messageSizeHistogram = [], tokenBytesCounter = (\<lambda>_. 0),
      tokenMessagesCounter = (\<lambda>_. 0), arrays = (\<lambda>_. []), allocated = 0,
      handed = (\<lambda>_. [])\<rparr>"

subsection \<open>RegisterToken, RegisterSession, DisposeToken\<close>

definition RegisterToken :: "'s WSRelay \<Rightarrow> token \<Rightarrow> 's WSRelay" where
  "RegisterToken r token =
     r\<lparr>cache := (cache r)(token \<mapsto> Conn (newWSRelayConn None)),
       tokenCounter := tokenCounter r + 1\<rparr>"

definition RegisterSession ::
  "'s WSRelay \<Rightarrow> token \<Rightarrow> session_ref option \<Rightarrow> error option \<times> 's WSRelay" where
  "RegisterSession r token sess =
     (case cache r token of
        None \<Rightarrow> (Some (New ''token not found''), r)
      | Some v \<Rightarrow>
          (case assert_wsRelayConn v of
             None \<Rightarrow> (Some (New ''failed to convert cached value to connection''), r)
           | Some conn \<Rightarrow>
               (None, r\<lparr>cache := (cache r)(token \<mapsto> Conn (conn\<lparr>session := sess\<rparr>))\<rparr>)))"

definition DisposeToken :: "'s WSRelay \<Rightarrow> token \<Rightarrow> 's WSRelay" where
  "DisposeToken r token =
     r\<lparr>cache := (cache r)(token := None),
       tokenRemovedCounter := tokenRemovedCounter r + 1\<rparr>"

subsection \<open>SendData\<close>

text \<open>
  The body is the list of what the successive calls \<^verbatim>\<open>body.Read(buf)\<close> return: the
  bytes placed in \<^verbatim>\<open>buf\<close> (their number is \<^verbatim>\<open>n\<close>) and the error. The list is a
  finite prefix of the reader's answers: when it runs out before the loop has left, the
  call has not returned, which is the value \<open>None\<close>.
\<close>

type_synonym read_result = "bytes \<times> error option"

text \<open>
  \<^verbatim>\<open>buf := make([]byte, 4*1024)\<close>: a new array of 4096 zero bytes, at the next free
  reference.
\<close>

definition new_buf :: bytes where
  "new_buf = replicate (4 * 1024) (CHR 0x00)"

definition make_buf :: "'s WSRelay \<Rightarrow> 's WSRelay" where
  "make_buf r =
     r\<lparr>arrays := (arrays r)(allocated r := new_buf), allocated := allocated r + 1\<rparr>"

text \<open>
  \<^verbatim>\<open>body.Read(buf)\<close> places the bytes it reports at the start of the array and leaves
  the rest of the array as it was. (A reader that reports more bytes than the array holds
  has broken its contract; the model keeps what it reported, and the loop panics.)
\<close>

definition read_into :: "bytes \<Rightarrow> bytes \<Rightarrow> bytes" where
  "read_into data buf = data @ drop (length data) buf"

text \<open>
  The test at the end of the loop body: \<^verbatim>\<open>if err != nil { if err == io.EOF { break }
  else { return err } }\<close>. \<open>Inl\<close> leaves the loop with the result of the call,
  \<open>Inr\<close> goes round again.
\<close>

definition check_err ::
  "error option \<Rightarrow> 's WSRelay \<Rightarrow> (outcome \<times> 's WSRelay) + 's WSRelay" where
  "check_err err r =
     (if err \<noteq> None then
        (if err = Some EOF then Inl (Return None, r) else Inl (Return err, r))
      else Inr r)"

text \<open>
  One round of the loop, on the array \<open>b\<close> that the call made. Every round reads into
  the same array, and \<^verbatim>\<open>Write\<close> is handed the slice \<^verbatim>\<open>buf[:n]\<close> of it, not a copy.
  \<^verbatim>\<open>buf\<close> has length and capacity \<open>4 * 1024\<close>, so \<^verbatim>\<open>buf[:n]\<close> panics for a larger
  \<^verbatim>\<open>n\<close>. The result of \<^verbatim>\<open>Write\<close> is assigned to the variable \<^verbatim>\<open>err\<close> that held
  the result of \<^verbatim>\<open>Read\<close>.
\<close>

definition iteration ::
  "'s melody \<Rightarrow> token \<Rightarrow> session_ref \<Rightarrow> buf_ref \<Rightarrow> read_result \<Rightarrow> 's WSRelay
    \<Rightarrow> (outcome \<times> 's WSRelay) + 's WSRelay" where
  "iteration M token s b rd r =
     (let data = fst rd; err = snd rd; n = length data;
          r = r\<lparr>arrays := (arrays r)(b := read_into data (arrays r b))\<rparr>
      in
      if n > 0 then
        (if n > 4 * 1024 then Inl (Panic, r)
         else
           (let w = Write M (sessions r s) (slice_bytes (arrays r) (b, n));
                err = fst w;
                r = r\<lparr>sessions := (sessions r)(s := snd w)\<rparr>
            in if err \<noteq> None then Inl (Return err, r)
               else
                 check_err err
                   (r\<lparr>handed := (handed r)(s := handed r s @ [(b, n)]),
                      messageSizeHistogram := messageSizeHistogram r @ [n],
                      tokenBytesCounter :=
                        (tokenBytesCounter r)(token := tokenBytesCounter r token + n),
                      tokenMessagesCounter :=
                        (tokenMessagesCounter r)(token := tokenMessagesCounter r token + 1)\<rparr>)))
      else check_err err r)"

fun send_loop ::
  "'s melody \<Rightarrow> token \<Rightarrow> session_ref \<Rightarrow> buf_ref \<Rightarrow> read_result list \<Rightarrow> 's WSRelay
    \<Rightarrow> (outcome \<times> 's WSRelay) option" where
  "send_loop M token s b [] r = None"
| "send_loop M token s b (rd # body) r =
     (case iteration M token s b rd r of
        Inl res \<Rightarrow> Some res
      | Inr r' \<Rightarrow> send_loop M token s b body r')"

definition SendData ::
  "'s melody \<Rightarrow> 's WSRelay \<Rightarrow> token \<Rightarrow> read_result list \<Rightarrow> (outcome \<times> 's WSRelay) option" where
  "SendData M r token body =
     (case cache r token of
        None \<Rightarrow> Some (Return (Some (New ''token not found'')), r)
      | Some v \<Rightarrow>
          (case assert_wsRelayConn v of
             None \<Rightarrow> Some (Return (Some (New ''no session associated with this token'')), r)
           | Some conn \<Rightarrow>
               (case session conn of
                  None \<Rightarrow>
                    Some (Return (Some (New ''no session associated with this token'')), r)
                | Some s \<Rightarrow> send_loop M token s (allocated r) body (make_buf r))))"

subsection \<open>The expiration callback\<close>

text \<open>
  The function passed to \<^verbatim>\<open>SetCheckExpirationCallback\<close>: its boolean result, and the
  relay with \<^verbatim>\<open>tokenRemovedCounter\<close> incremented on the two branches that return
  \<^verbatim>\<open>false\<close>.
\<close>

definition checkExpirationCallback ::
  "'s melody \<Rightarrow> 's WSRelay \<Rightarrow> token \<Rightarrow> cache_value \<Rightarrow> bool \<times> 's WSRelay" where
  "checkExpirationCallback M r key v =
     (case assert_wsRelayConn v of
        None \<Rightarrow> (False, r\<lparr>tokenRemovedCounter := tokenRemovedCounter r + 1\<rparr>)
      | Some conn \<Rightarrow>
          (case session conn of
             None \<Rightarrow> (False, r\<lparr>tokenRemovedCounter := tokenRemovedCounter r + 1\<rparr>)
           | Some s \<Rightarrow>
               if IsClosed M (sessions r s)
               then (False, r\<lparr>tokenRemovedCounter := tokenRemovedCounter r + 1\<rparr>)
               else (True, r)))"

subsection \<open>The errors by the names the specification gives them\<close>

abbreviation TokenNotFound :: error where
  "TokenNotFound \<equiv> New ''token not found''"

abbreviation NoBoundChannel :: error where
  "NoBoundChannel \<equiv> New ''no session associated with this token''"

abbreviation ConversionFailed :: error where
  "ConversionFailed \<equiv> New ''failed to convert cached value to connection''"

subsection \<open>What a session has been sent\<close>

text \<open>
  \<open>writes M c ms\<close> calls \<^verbatim>\<open>Write\<close> on a session in state \<open>c\<close> once for each message
  of \<open>ms\<close>, in order: \<open>Some c'\<close> is the state reached when every call returned
  \<^verbatim>\<open>nil\<close>, \<open>None\<close> says that one of them returned an error.
\<close>

fun writes :: "'s melody \<Rightarrow> 's \<Rightarrow> bytes list \<Rightarrow> 's option" where
  "writes M c [] = Some c"
| "writes M c (m # ms) =
     (case Write M c m of
        (None, c') \<Rightarrow> writes M c' ms
      | (Some e, c') \<Rightarrow> None)"

text \<open>The chunks of a list of reads: the data of the reads that returned \<open>n > 0\<close>.\<close>

definition chunks :: "read_result list \<Rightarrow> bytes list" where
  "chunks reads = filter (\<lambda>d. d \<noteq> []) (map fst reads)"

text \<open>
  A session for the scenarios: it refuses a frame exactly when it is closed, and
  records, for every frame it accepts, the bytes the slice held when \<^verbatim>\<open>Write\<close> was
  called.
\<close>

record frames_session =
  closed :: bool
  outbox :: "bytes list"

definition frames_melody :: "frames_session melody" where
  "frames_melody =
     \<lparr>IsClosed = closed,
      Write = (\<lambda>c m. if closed c then (Some (New ''session is closed''), c)
                      else (None, c\<lparr>outbox := outbox c @ [m]\<rparr>))\<rparr>"

definition open_session :: frames_session where
  "open_session = \<lparr>closed = False, outbox = []\<rparr>"

definition closed_session :: frames_session where
  "closed_session = \<lparr>closed = True, outbox = []\<rparr>"

subsection \<open>The expiry sweep\<close>

text \<open>
  Modelled from the spec: the eviction sweep of the expiring table, which belongs to the
  cache library and is not in the repository. Section 4.1: for each entry past its
  deadline, run the predicate on the value; on veto skip the entry, otherwise remove it.
  The predicate is installed with \<^verbatim>\<open>SetCheckExpirationCallback\<close>, and the library asks
  it whether the entry may expire: the answer \<^verbatim>\<open>false\<close> is the veto, which keeps the
  entry for another period, and on \<^verbatim>\<open>true\<close> the entry is removed. \<open>keys\<close> are the
  tokens past their deadline, in the order the sweep visits them; a token no longer in
  the table is passed over.
\<close>

fun sweep :: "'s melody \<Rightarrow> token list \<Rightarrow> 's WSRelay \<Rightarrow> 's WSRelay" where
  "sweep M [] r = r"
| "sweep M (key # keys) r =
     (case cache r key of
        None \<Rightarrow> sweep M keys r
      | Some v \<Rightarrow>
          (case checkExpirationCallback M r key v of
             (expire, r') \<Rightarrow>
               sweep M keys (if expire then r'\<lparr>cache := (cache r')(key := None)\<rparr> else r')))"

text \<open>
  A token is evicted by a sweep that visits it when it is in the table and the callback
  answers \<^verbatim>\<open>true\<close> for its value.
\<close>

definition evicted :: "'s melody \<Rightarrow> 's WSRelay \<Rightarrow> token \<Rightarrow> bool" where
  "evicted M r key =
     (case cache r key of
        None \<Rightarrow> False
      | Some v \<Rightarrow> fst (checkExpirationCallback M r key v))"

subsection \<open>The states a relay can be in\<close>

text \<open>
  A relay starts from \<^verbatim>\<open>NewWSRelay\<close> and changes by the four operations, by a sweep, and
  by whatever happens to the sessions outside the relay (a consumer connects or goes
  away).
\<close>

inductive reachable :: "'s melody \<Rightarrow> 's WSRelay \<Rightarrow> bool" for M :: "'s melody" where
  r_new: "reachable M (NewWSRelay ss)"
| r_token: "reachable M r \<Longrightarrow> reachable M (RegisterToken r token)"
| r_session: "reachable M r \<Longrightarrow> reachable M (snd (RegisterSession r token sess))"
| r_send: "reachable M r \<Longrightarrow> SendData M r token body = Some (out, r') \<Longrightarrow> reachable M r'"
| r_dispose: "reachable M r \<Longrightarrow> reachable M (DisposeToken r token)"
| r_sweep: "reachable M r \<Longrightarrow> reachable M (sweep M keys r)"
| r_sessions: "reachable M r \<Longrightarrow> reachable M (r\<lparr>sessions := ss\<rparr>)"

subsection \<open>The relay after some rounds of the loop\<close>

text \<open>
  \<open>rounds token s b r ws c\<close> is the relay \<open>r\<close> once the chunks \<open>ws\<close> have been read
  into the array \<open>b\<close>, one after the other, and handed to the session \<open>s\<close> as slices of
  it, leaving the session in state \<open>c\<close>, and each of them has been counted for
  \<open>token\<close>. \<open>progress token s r ws c\<close> is the same for a whole call, which first makes
  its array.
\<close>

definition rounds ::
  "token \<Rightarrow> session_ref \<Rightarrow> buf_ref \<Rightarrow> 's WSRelay \<Rightarrow> bytes list \<Rightarrow> 's \<Rightarrow> 's WSRelay" where
  "rounds token s b r ws c =
     r\<lparr>arrays := (arrays r)(b := foldl (\<lambda>buf w. read_into w buf) (arrays r b) ws),
       sessions := (sessions r)(s := c),
       handed := (handed r)(s := handed r s @ map (\<lambda>w. (b, length w)) ws),
       messageSizeHistogram := messageSizeHistogram r @ map length ws,
       tokenBytesCounter :=
         (tokenBytesCounter r)(token := tokenBytesCounter r token + length (concat ws)),
       tokenMessagesCounter :=
         (tokenMessagesCounter r)(token := tokenMessagesCounter r token + length ws)\<rparr>"

definition progress ::
  "token \<Rightarrow> session_ref \<Rightarrow> 's WSRelay \<Rightarrow> bytes list \<Rightarrow> 's \<Rightarrow> 's WSRelay" where
  "progress token s r ws c = rounds token s (allocated r) (make_buf r) ws c"

subsection \<open>Two relays for the scenarios\<close>

text \<open>
  A new relay in which the token \<open>t1\<close> has been issued, and the same relay after the
  session 0, which is open, has been bound to it.
\<close>

definition relay_issued :: "frames_session WSRelay" where
  "relay_issued = RegisterToken (NewWSRelay (\<lambda>_. open_session)) ''t1''"

definition relay_bound :: "frames_session WSRelay" where
  "relay_bound = snd (RegisterSession relay_issued ''t1'' (Some 0))"

text \<open>The bound relay after a call that has sent the chunks \<open>he\<close> and \<open>llo\<close>.\<close>

definition relay_sent :: "frames_session WSRelay" where
  "relay_sent =
     progress ''t1'' 0 relay_bound [''he'', ''llo'']
       \<lparr>closed = False, outbox = [''he'', ''llo'']\<rparr>"

text \<open>
  The bound relay with two more tokens: \<open>t2\<close> has no session, \<open>t3\<close> is bound to the
  session 1, which is closed.
\<close>

definition relay_expiring :: "frames_session WSRelay" where
  "relay_expiring =
     snd (RegisterSession
       (RegisterToken
         (RegisterToken (relay_bound\<lparr>sessions := (\<lambda>_. open_session)(1 := closed_session)\<rparr>) ''t2'')
         ''t3'')
       ''t3'' (Some 1))"

section \<open>Properties\<close>

subsection \<open>One round and the whole loop\<close>

lemma slice_read [simp]:
  "slice_bytes (as(b := read_into data buf)) (b, length data) = data"
  by (simp add: slice_bytes_def read_into_def)

lemma read_into_Nil [simp]: "read_into [] buf = buf"
  by (simp add: read_into_def)

lemma iteration_Inr:
  assumes "iteration M token s b rd r = Inr r1"
  shows "(fst rd = [] \<and> snd rd = None \<and> r1 = r) \<or>
         (fst rd \<noteq> [] \<and> length (fst rd) \<le> 4096 \<and>
          fst (Write M (sessions r s) (fst rd)) = None \<and>
          r1 = rounds token s b r [fst rd] (snd (Write M (sessions r s) (fst rd))))"
  using assms
  by (auto simp: iteration_def check_err_def rounds_def Let_def split: if_splits)

lemma iteration_Inl:
  assumes "iteration M token s b rd r = Inl (out, r1)"
  shows "(fst rd = [] \<and> snd rd = Some EOF \<and> out = Return None \<and> r1 = r) \<or>
         (fst rd = [] \<and> snd rd \<noteq> None \<and> snd rd \<noteq> Some EOF \<and>
          out = Return (snd rd) \<and> r1 = r) \<or>
         (4096 < length (fst rd) \<and> out = Panic \<and>
          r1 = r\<lparr>arrays := (arrays r)(b := read_into (fst rd) (arrays r b))\<rparr>) \<or>
         (fst rd \<noteq> [] \<and> length (fst rd) \<le> 4096 \<and>
          fst (Write M (sessions r s) (fst rd)) \<noteq> None \<and>
          out = Return (fst (Write M (sessions r s) (fst rd))) \<and>
          r1 = r\<lparr>arrays := (arrays r)(b := read_into (fst rd) (arrays r b)),
                 sessions := (sessions r)(s := snd (Write M (sessions r s) (fst rd)))\<rparr>)"
  using assms
  by (auto simp: iteration_def check_err_def Let_def split: if_splits)

lemma rounds_Nil: "rounds token s b r [] (sessions r s) = r"
  by (simp add: rounds_def)

lemma rounds_rounds:
  "rounds token s b (rounds token s b r [d] c1) ws c = rounds token s b r (d # ws) c"
  by (simp add: rounds_def add.assoc)

lemma rounds_fields:
  "cache (rounds token s b r ws c) = cache r"
  "sessions (rounds token s b r ws c) = (sessions r)(s := c)"
  "tokenCounter (rounds token s b r ws c) = tokenCounter r"
  "tokenRemovedCounter (rounds token s b r ws c) = tokenRemovedCounter r"
  "messageSizeHistogram (rounds token s b r ws c) = messageSizeHistogram r @ map length ws"
  "tokenBytesCounter (rounds token s b r ws c) =
     (tokenBytesCounter r)(token := tokenBytesCounter r token + length (concat ws))"
  "tokenMessagesCounter (rounds token s b r ws c) =
     (tokenMessagesCounter r)(token := tokenMessagesCounter r token + length ws)"
  "arrays (rounds token s b r ws c) =
     (arrays r)(b := foldl (\<lambda>buf w. read_into w buf) (arrays r b) ws)"
  "handed (rounds token s b r ws c) =
     (handed r)(s := handed r s @ map (\<lambda>w. (b, length w)) ws)"
  by (simp_all add: rounds_def)

lemma make_buf_fields:
  "cache (make_buf r) = cache r"
  "sessions (make_buf r) = sessions r"
  "tokenCounter (make_buf r) = tokenCounter r"
  "tokenRemovedCounter (make_buf r) = tokenRemovedCounter r"
  "messageSizeHistogram (make_buf r) = messageSizeHistogram r"
  "tokenBytesCounter (make_buf r) = tokenBytesCounter r"
  "tokenMessagesCounter (make_buf r) = tokenMessagesCounter r"
  "arrays (make_buf r) = (arrays r)(allocated r := new_buf)"
  "handed (make_buf r) = handed r"
  by (simp_all add: make_buf_def)

lemma sessions_rounds: "sessions (rounds token s b r ws c) s = c"
  by (simp add: rounds_def)

lemma chunks_Nil: "chunks [] = []"
  by (simp add: chunks_def)

lemma chunks_Cons:
  "chunks (rd # reads) = (if fst rd = [] then chunks reads else fst rd # chunks reads)"
  by (simp add: chunks_def)

text \<open>
  A call of the loop that returns has made \<open>k + 1\<close> reads: the first \<open>k\<close> rounds wrote
  and counted the chunks of their reads, each of at most 4096 bytes, and round \<open>k\<close>
  left the loop.
\<close>

lemma send_loop_rounds:
  "send_loop M token s b body r = Some res \<Longrightarrow>
   \<exists>k c. k < length body \<and>
         send_loop M token s b (take (Suc k) body) r = Some res \<and>
         writes M (sessions r s) (chunks (take k body)) = Some c \<and>
         list_all (\<lambda>w. length w \<le> 4096) (chunks (take k body)) \<and>
         iteration M token s b (body ! k) (rounds token s b r (chunks (take k body)) c) = Inl res"
proof (induction body arbitrary: r)
  case Nil
  then show ?case by simp
next
  case (Cons rd body)
  show ?case
  proof (cases "iteration M token s b rd r")
    case (Inl a)
    with Cons.prems have "a = res" by simp
    with Inl have "0 < length (rd # body) \<and>
         send_loop M token s b (take (Suc 0) (rd # body)) r = Some res \<and>
         writes M (sessions r s) (chunks (take 0 (rd # body))) = Some (sessions r s) \<and>
         list_all (\<lambda>w. length w \<le> 4096) (chunks (take 0 (rd # body))) \<and>
         iteration M token s b ((rd # body) ! 0)
           (rounds token s b r (chunks (take 0 (rd # body))) (sessions r s)) = Inl res"
      by (simp add: chunks_Nil rounds_Nil)
    then show ?thesis by blast
  next
    case (Inr r1)
    with Cons.prems have loop: "send_loop M token s b body r1 = Some res" by simp
    from Cons.IH [OF loop] obtain k c where k: "k < length body"
      and tk: "send_loop M token s b (take (Suc k) body) r1 = Some res"
      and w: "writes M (sessions r1 s) (chunks (take k body)) = Some c"
      and la: "list_all (\<lambda>w. length w \<le> 4096) (chunks (take k body))"
      and it: "iteration M token s b (body ! k)
                 (rounds token s b r1 (chunks (take k body)) c) = Inl res"
      by blast
    from iteration_Inr [OF Inr] show ?thesis
    proof
      assume e: "fst rd = [] \<and> snd rd = None \<and> r1 = r"
      with k tk w la it Inr have "Suc k < length (rd # body) \<and>
         send_loop M token s b (take (Suc (Suc k)) (rd # body)) r = Some res \<and>
         writes M (sessions r s) (chunks (take (Suc k) (rd # body))) = Some c \<and>
         list_all (\<lambda>w. length w \<le> 4096) (chunks (take (Suc k) (rd # body))) \<and>
         iteration M token s b ((rd # body) ! Suc k)
           (rounds token s b r (chunks (take (Suc k) (rd # body))) c) = Inl res"
        by (simp add: chunks_Cons)
      then show ?thesis by blast
    next
      assume e: "fst rd \<noteq> [] \<and> length (fst rd) \<le> 4096 \<and>
          fst (Write M (sessions r s) (fst rd)) = None \<and>
          r1 = rounds token s b r [fst rd] (snd (Write M (sessions r s) (fst rd)))"
      then have wr: "Write M (sessions r s) (fst rd) = (None, sessions r1 s)"
        by (simp add: sessions_rounds prod_eq_iff)
      from e it have it': "iteration M token s b (body ! k)
           (rounds token s b r (fst rd # chunks (take k body)) c) = Inl res"
        by (simp add: rounds_rounds)
      from e k tk w la it' Inr wr have "Suc k < length (rd # body) \<and>
         send_loop M token s b (take (Suc (Suc k)) (rd # body)) r = Some res \<and>
         writes M (sessions r s) (chunks (take (Suc k) (rd # body))) = Some c \<and>
         list_all (\<lambda>w. length w \<le> 4096) (chunks (take (Suc k) (rd # body))) \<and>
         iteration M token s b ((rd # body) ! Suc k)
           (rounds token s b r (chunks (take (Suc k) (rd # body))) c) = Inl res"
        by (simp add: chunks_Cons)
      then show ?thesis by blast
    qed
  qed
qed

lemma iteration_cache:
  "iteration M token s b rd r = Inl (out, r') \<Longrightarrow> cache r' = cache r"
  by (auto simp: iteration_def check_err_def Let_def split: if_splits)

lemma send_loop_cache:
  assumes "send_loop M token s b body r = Some (out, r')"
  shows "cache r' = cache r"
proof -
  from send_loop_rounds [OF assms] obtain k c where
    "iteration M token s b (body ! k) (rounds token s b r (chunks (take k body)) c) = Inl (out, r')"
    by blast
  then have "cache r' = cache (rounds token s b r (chunks (take k body)) c)"
    by (rule iteration_cache)
  then show ?thesis by (simp add: rounds_def)
qed

lemma concat_chunks: "concat (chunks reads) = concat (map fst reads)"
  by (induction reads) (simp_all add: chunks_def)

lemma chunks_append: "chunks (xs @ ys) = chunks xs @ chunks ys"
  by (simp add: chunks_def)

lemma chunks_nonempty: "list_all (\<lambda>w. 0 < length w) (chunks reads)"
  by (simp add: chunks_def list_all_iff)

lemma chunks_take_Suc:
  "k < length body \<Longrightarrow> fst (body ! k) = [] \<Longrightarrow>
   chunks (take (Suc k) body) = chunks (take k body)"
  by (simp add: take_Suc_conv_app_nth chunks_append chunks_def)

lemma SendData_bound:
  "cache r token = Some (Conn conn) \<Longrightarrow> session conn = Some s \<Longrightarrow>
   SendData M r token body = send_loop M token s (allocated r) body (make_buf r)"
  by (simp add: SendData_def)

text \<open>A successful call: the round that left the loop read no bytes and \<^verbatim>\<open>io.EOF\<close>.\<close>

lemma send_loop_success:
  assumes "send_loop M token s b body r = Some (Return None, r')"
  shows "\<exists>k<length body.
           body ! k = ([], Some EOF) \<and>
           send_loop M token s b (take (Suc k) body) r = Some (Return None, r') \<and>
           writes M (sessions r s) (chunks (take (Suc k) body)) = Some (sessions r' s) \<and>
           list_all (\<lambda>w. length w \<le> 4096) (chunks (take (Suc k) body)) \<and>
           r' = rounds token s b r (chunks (take (Suc k) body)) (sessions r' s)"
proof -
  from send_loop_rounds [OF assms] obtain k c where k: "k < length body"
    and tk: "send_loop M token s b (take (Suc k) body) r = Some (Return None, r')"
    and w: "writes M (sessions r s) (chunks (take k body)) = Some c"
    and la: "list_all (\<lambda>w. length w \<le> 4096) (chunks (take k body))"
    and it: "iteration M token s b (body ! k)
               (rounds token s b r (chunks (take k body)) c) = Inl (Return None, r')"
    by blast
  from iteration_Inl [OF it]
  have last: "fst (body ! k) = [] \<and> snd (body ! k) = Some EOF \<and>
              r' = rounds token s b r (chunks (take k body)) c"
    by auto
  then have c: "sessions r' s = c" by (simp add: sessions_rounds)
  from last have bk: "body ! k = ([], Some EOF)" by (simp add: prod_eq_iff)
  from k last have ch: "chunks (take (Suc k) body) = chunks (take k body)"
    by (simp add: chunks_take_Suc)
  from k bk tk w la last c ch show ?thesis by auto
qed

text \<open>
  Whatever the loop returns, the metrics have moved by the chunks of the first \<open>k\<close>
  reads, each written with success; the only other Write, if there was one, failed.
\<close>

lemma send_loop_counts:
  assumes "send_loop M token s b body r = Some (out, r')"
  shows "\<exists>k c. k < length body \<and>
           writes M (sessions r s) (chunks (take k body)) = Some c \<and>
           list_all (\<lambda>w. 0 < length w \<and> length w \<le> 4096) (chunks (take k body)) \<and>
           messageSizeHistogram r' =
             messageSizeHistogram r @ map length (chunks (take k body)) \<and>
           tokenBytesCounter r' =
             (tokenBytesCounter r)
               (token := tokenBytesCounter r token + length (concat (chunks (take k body)))) \<and>
           tokenMessagesCounter r' =
             (tokenMessagesCounter r)
               (token := tokenMessagesCounter r token + length (chunks (take k body))) \<and>
           (sessions r' s = c \<or>
            fst (Write M c (fst (body ! k))) \<noteq> None \<and>
            sessions r' s = snd (Write M c (fst (body ! k))))"
proof -
  from send_loop_rounds [OF assms] obtain k c where k: "k < length body"
    and w: "writes M (sessions r s) (chunks (take k body)) = Some c"
    and la: "list_all (\<lambda>w. length w \<le> 4096) (chunks (take k body))"
    and it: "iteration M token s b (body ! k)
               (rounds token s b r (chunks (take k body)) c) = Inl (out, r')"
    by blast
  let ?p = "rounds token s b r (chunks (take k body)) c"
  note r' = iteration_Inl [OF it]
  from la chunks_nonempty [of "take k body"]
  have la': "list_all (\<lambda>w. 0 < length w \<and> length w \<le> 4096) (chunks (take k body))"
    by (simp add: list_all_iff)
  from r' have m1: "messageSizeHistogram r' =
             messageSizeHistogram r @ map length (chunks (take k body))"
    by (auto simp: rounds_fields)
  from r' have m2: "tokenBytesCounter r' =
             (tokenBytesCounter r)
               (token := tokenBytesCounter r token + length (concat (chunks (take k body))))"
    by (auto simp: rounds_fields)
  from r' have m3: "tokenMessagesCounter r' =
             (tokenMessagesCounter r)
               (token := tokenMessagesCounter r token + length (chunks (take k body)))"
    by (auto simp: rounds_fields)
  from r' have m4: "sessions r' s = c \<or>
            fst (Write M c (fst (body ! k))) \<noteq> None \<and>
            sessions r' s = snd (Write M c (fst (body ! k)))"
    by (auto simp: rounds_fields)
  from k w la' m1 m2 m3 m4 show ?thesis by blast
qed

text \<open>The same for a call of SendData on a bound token.\<close>

lemma SendData_success:
  assumes "cache r token = Some (Conn conn)" and "session conn = Some s"
    and "SendData M r token body = Some (Return None, r')"
  shows "\<exists>k<length body.
           body ! k = ([], Some EOF) \<and>
           SendData M r token (take (Suc k) body) = Some (Return None, r') \<and>
           writes M (sessions r s) (chunks (take (Suc k) body)) = Some (sessions r' s) \<and>
           list_all (\<lambda>w. length w \<le> 4096) (chunks (take (Suc k) body)) \<and>
           r' = progress token s r (chunks (take (Suc k) body)) (sessions r' s)"
proof -
  note bound = SendData_bound [OF assms(1,2)]
  from assms(3) have "send_loop M token s (allocated r) body (make_buf r) = Some (Return None, r')"
    by (simp add: bound)
  from send_loop_success [OF this] obtain k where k: "k < length body"
    and bk: "body ! k = ([], Some EOF)"
    and tk: "send_loop M token s (allocated r) (take (Suc k) body) (make_buf r)
               = Some (Return None, r')"
    and w: "writes M (sessions (make_buf r) s) (chunks (take (Suc k) body))
              = Some (sessions r' s)"
    and la: "list_all (\<lambda>w. length w \<le> 4096) (chunks (take (Suc k) body))"
    and r': "r' = rounds token s (allocated r) (make_buf r) (chunks (take (Suc k) body))
                    (sessions r' s)"
    by blast
  from tk have tk': "SendData M r token (take (Suc k) body) = Some (Return None, r')"
    by (simp add: bound)
  from w have w': "writes M (sessions r s) (chunks (take (Suc k) body)) = Some (sessions r' s)"
    by (simp add: make_buf_fields)
  from r' have r'': "r' = progress token s r (chunks (take (Suc k) body)) (sessions r' s)"
    by (simp add: progress_def)
  from k bk tk' w' la r'' show ?thesis by blast
qed

lemma progress_fields:
  "cache (progress token s r ws c) = cache r"
  "sessions (progress token s r ws c) = (sessions r)(s := c)"
  "messageSizeHistogram (progress token s r ws c) = messageSizeHistogram r @ map length ws"
  "tokenBytesCounter (progress token s r ws c) =
     (tokenBytesCounter r)(token := tokenBytesCounter r token + length (concat ws))"
  "tokenMessagesCounter (progress token s r ws c) =
     (tokenMessagesCounter r)(token := tokenMessagesCounter r token + length ws)"
  "arrays (progress token s r ws c) =
     (arrays r)(allocated r := foldl (\<lambda>buf w. read_into w buf) new_buf ws)"
  "handed (progress token s r ws c) =
     (handed r)(s := handed r s @ map (\<lambda>w. (allocated r, length w)) ws)"
  by (simp_all add: progress_def rounds_fields make_buf_fields)

text \<open>Issue a token, bind a session that accepts \<open>hello\<close>, send \<open>hello\<close> in one read.\<close>

lemma hello_scenario:
  assumes "e = None \<or> e = Some EOF"
    and "Write M (sessions r0 chanA) ''hello'' = (None, c')"
  shows "RegisterSession (RegisterToken r0 t1) t1 (Some chanA)
           = (None, (RegisterToken r0 t1)\<lparr>cache := (cache r0)(t1 \<mapsto> Conn \<lparr>session = Some chanA\<rparr>)\<rparr>) \<and>
         SendData M (snd (RegisterSession (RegisterToken r0 t1) t1 (Some chanA))) t1
             [(''hello'', e), ([], Some EOF)]
           = Some (Return None,
               progress t1 chanA (snd (RegisterSession (RegisterToken r0 t1) t1 (Some chanA)))
                 [''hello''] c')"
  using assms
  by (auto simp: RegisterSession_def RegisterToken_def newWSRelayConn_def SendData_def
      iteration_def check_err_def progress_def rounds_def make_buf_def Let_def
      slice_bytes_def read_into_def)

text \<open>On the recording session, the messages written are the frames added to the outbox.\<close>

lemma writes_frames_melody:
  "writes frames_melody c ms = Some c' \<Longrightarrow> outbox c' = outbox c @ ms \<and> closed c' = closed c"
proof (induction ms arbitrary: c)
  case Nil
  then show ?case by simp
next
  case (Cons m ms)
  then show ?case
    by (cases "closed c") (auto simp: frames_melody_def)
qed

text \<open>
  The loop returns as soon as a read hands over no bytes and an error: a body in which
  such a read occurs is long enough for the call to return.
\<close>

lemma iteration_exit:
  "fst rd = [] \<Longrightarrow> snd rd \<noteq> None \<Longrightarrow> \<exists>res. iteration M token s b rd r = Inl res"
  by (simp add: iteration_def check_err_def)

lemma send_loop_returns:
  assumes "\<exists>rd\<in>set body. fst rd = [] \<and> snd rd \<noteq> None"
  shows "\<exists>res. send_loop M token s b body r = Some res"
  using assms
proof (induction body arbitrary: r)
  case Nil
  then show ?case by simp
next
  case (Cons rd body)
  show ?case
  proof (cases "iteration M token s b rd r")
    case (Inl res)
    then show ?thesis by simp
  next
    case (Inr r1)
    have "\<not> (fst rd = [] \<and> snd rd \<noteq> None)"
    proof
      assume "fst rd = [] \<and> snd rd \<noteq> None"
      then have "fst rd = []" and "snd rd \<noteq> None"
        by blast+
      then have "\<exists>res. iteration M token s b rd r = Inl res"
        by (rule iteration_exit)
      with Inr show False by simp
    qed
    with Cons.prems have "\<exists>rd\<in>set body. fst rd = [] \<and> snd rd \<noteq> None" by auto
    from Cons.IH [OF this, of r1] Inr show ?thesis by simp
  qed
qed

lemmas scenario_defs =
  relay_bound_def relay_issued_def RegisterSession_def RegisterToken_def NewWSRelay_def
  newWSRelayConn_def SendData_def iteration_def check_err_def frames_melody_def
  open_session_def closed_session_def make_buf_def slice_bytes_def read_into_def

subsection \<open>SendData and the table\<close>

text \<open>
  C10. SendData never changes the table: whatever a call returns (success, token not
  found, no bound channel, a read or write error, or a panic), the tokens of the table
  and the session bound to each of them are what they were before the call.
\<close>

theorem SendData_keeps_table:
  assumes "SendData M r token body = Some (out, r')"
  shows "cache r' = cache r"
  using assms
  by (auto simp: SendData_def make_buf_fields split: option.splits dest: send_loop_cache)

theorem SendData_keeps_table_witness:
  "\<exists>r'. SendData frames_melody relay_bound ''t1'' [(''hello'', None), ([], Some EOF)]
          = Some (Return None, r') \<and> cache r' = cache relay_bound"
proof -
  have "\<exists>r'. SendData frames_melody relay_bound ''t1'' [(''hello'', None), ([], Some EOF)]
          = Some (Return None, r')"
    by (simp add: scenario_defs)
  then obtain r' where
    h: "SendData frames_melody relay_bound ''t1'' [(''hello'', None), ([], Some EOF)]
          = Some (Return None, r')"
    by blast
  from SendData_keeps_table [OF h] h show ?thesis by blast
qed

subsection \<open>What a successful SendData has handed to the session\<close>

text \<open>
  At the time of each call of \<^verbatim>\<open>Write\<close> the slice holds the chunk just read: a call
  that returns success has made \<open>k + 1\<close> reads, the last of which returned no bytes
  and \<^verbatim>\<open>io.EOF\<close>, and has called \<^verbatim>\<open>Write\<close> once for each non-empty chunk of those
  reads, in the order read, with a slice of 1 to 4096 bytes that held the chunk then.
\<close>

lemma SendData_success_hands_over_reads:
  assumes "cache r token = Some (Conn conn)" and "session conn = Some s"
    and "SendData M r token body = Some (Return None, r')"
  shows "\<exists>k<length body.
           body ! k = ([], Some EOF) \<and>
           SendData M r token (take (Suc k) body) = Some (Return None, r') \<and>
           writes M (sessions r s) (chunks (take (Suc k) body)) = Some (sessions r' s) \<and>
           concat (chunks (take (Suc k) body)) = concat (map fst (take (Suc k) body)) \<and>
           list_all (\<lambda>w. 0 < length w \<and> length w \<le> 4 * 1024)
             (chunks (take (Suc k) body)) \<and>
           sessions r' = (sessions r)(s := sessions r' s)"
proof -
  from SendData_success [OF assms] obtain k where k: "k < length body"
    and bk: "body ! k = ([], Some EOF)"
    and tk: "SendData M r token (take (Suc k) body) = Some (Return None, r')"
    and w: "writes M (sessions r s) (chunks (take (Suc k) body)) = Some (sessions r' s)"
    and la: "list_all (\<lambda>w. length w \<le> 4096) (chunks (take (Suc k) body))"
    and r': "r' = progress token s r (chunks (take (Suc k) body)) (sessions r' s)"
    by blast
  from r' have
    "sessions r' = sessions (progress token s r (chunks (take (Suc k) body)) (sessions r' s))"
    by simp
  then have ss: "sessions r' = (sessions r)(s := sessions r' s)"
    by (simp add: progress_fields)
  from la chunks_nonempty [of "take (Suc k) body"]
  have la': "list_all (\<lambda>w. 0 < length w \<and> length w \<le> 4 * 1024)
               (chunks (take (Suc k) body))"
    by (simp add: list_all_iff)
  from k bk tk w la' ss concat_chunks [of "take (Suc k) body"] show ?thesis by blast
qed

text \<open>
  The slices handed over by a successful call all point into the one array of the call:
  once the call has returned, each of them holds the first bytes of what the reads have
  left in that array.
\<close>

lemma SendData_success_slices:
  assumes "cache r token = Some (Conn conn)" and "session conn = Some s"
    and "SendData M r token body = Some (Return None, r')"
  shows "\<exists>k<length body.
           handed r' s =
             handed r s @ map (\<lambda>w. (allocated r, length w)) (chunks (take (Suc k) body)) \<and>
           arrays r' (allocated r) =
             foldl (\<lambda>buf w. read_into w buf) new_buf (chunks (take (Suc k) body))"
proof -
  from SendData_success [OF assms] obtain k where k: "k < length body"
    and r': "r' = progress token s r (chunks (take (Suc k) body)) (sessions r' s)"
    by blast
  from r' have "handed r' = handed (progress token s r (chunks (take (Suc k) body)) (sessions r' s))"
    and "arrays r' = arrays (progress token s r (chunks (take (Suc k) body)) (sessions r' s))"
    by simp_all
  then have "handed r' s =
             handed r s @ map (\<lambda>w. (allocated r, length w)) (chunks (take (Suc k) body))"
    and "arrays r' (allocated r) =
             foldl (\<lambda>buf w. read_into w buf) new_buf (chunks (take (Suc k) body))"
    by (simp_all add: progress_fields)
  with k show ?thesis by blast
qed

text \<open>
  C1. What the session has in hand after a call in two chunks. With \<open>t1\<close> bound to an
  open session that has been handed nothing yet, a reader that answers \<open>he\<close>, then
  \<open>llo\<close>, then no bytes with \<^verbatim>\<open>io.EOF\<close>: the call returns success, having handed the
  session the slices \<^verbatim>\<open>buf[:2]\<close> and \<^verbatim>\<open>buf[:3]\<close> of the one array it made. The second
  read has overwritten the start of that array, so once the call has returned the two
  slices hold \<open>ll\<close> and \<open>llo\<close>, which together are \<open>llllo\<close> and not the \<open>hello\<close>
  that was read.
\<close>

theorem SendData_second_read_overwrites_first_slice:
  "cache relay_bound ''t1'' = Some (Conn \<lparr>session = Some 0\<rparr>) \<and>
   sessions relay_bound 0 = open_session \<and>
   handed relay_bound 0 = [] \<and>
   SendData frames_melody relay_bound ''t1'' [(''he'', None), (''llo'', None), ([], Some EOF)]
     = Some (Return None, relay_sent) \<and>
   handed relay_sent 0 = [(0, 2), (0, 3)] \<and>
   map (slice_bytes (arrays relay_sent)) (handed relay_sent 0) = [''ll'', ''llo''] \<and>
   concat (map (slice_bytes (arrays relay_sent)) (handed relay_sent 0)) = ''llllo''"
  by (simp add: scenario_defs relay_sent_def progress_def rounds_def)

subsection \<open>The metrics of SendData\<close>

text \<open>
  C5. Every chunk that SendData writes with success is counted, the last one included:
  when a call on a token bound to the session \<open>s\<close> returns, with whatever result, the
  chunks \<open>ws\<close> of the first \<open>k\<close> reads have each been written with success (1 to
  4096 bytes each), the histogram has observed the length of each of them in order, the
  byte counter of the token has grown by the sum of their lengths and its message counter
  by their number; the session is in the state these writes left, or in the state left by
  one further Write, which failed. In particular, after a token \<open>t1\<close> is issued and
  the session \<open>chanA\<close> is bound to it, sending \<open>hello\<close>, which the reader hands over
  in one read (with \<^verbatim>\<open>nil\<close> or \<^verbatim>\<open>io.EOF\<close>) before it answers \<^verbatim>\<open>io.EOF\<close> with no
  bytes, succeeds, makes the single write \<open>hello\<close> to \<open>chanA\<close>, adds the
  observation 5, adds 5 to the byte counter of \<open>t1\<close> and 1 to its message counter.
\<close>

theorem SendData_counts_every_written_chunk:
  "(cache r token = Some (Conn conn) \<and> session conn = Some s \<and>
    SendData M r token body = Some (out, r') \<longrightarrow>
      (\<exists>k c. k < length body \<and>
         writes M (sessions r s) (chunks (take k body)) = Some c \<and>
         list_all (\<lambda>w. 0 < length w \<and> length w \<le> 4096) (chunks (take k body)) \<and>
         messageSizeHistogram r' =
           messageSizeHistogram r @ map length (chunks (take k body)) \<and>
         tokenBytesCounter r' =
           (tokenBytesCounter r)
             (token := tokenBytesCounter r token + length (concat (chunks (take k body)))) \<and>
         tokenMessagesCounter r' =
           (tokenMessagesCounter r)
             (token := tokenMessagesCounter r token + length (chunks (take k body))) \<and>
         (sessions r' s = c \<or>
          fst (Write M c (fst (body ! k))) \<noteq> None \<and>
          sessions r' s = snd (Write M c (fst (body ! k)))))) \<and>
   ((e = None \<or> e = Some EOF) \<and> Write M (sessions r0 chanA) ''hello'' = (None, c') \<longrightarrow>
      fst (RegisterSession (RegisterToken r0 t1) t1 (Some chanA)) = None \<and>
      (\<exists>r3. SendData M (snd (RegisterSession (RegisterToken r0 t1) t1 (Some chanA))) t1
               [(''hello'', e), ([], Some EOF)] = Some (Return None, r3) \<and>
            writes M (sessions r0 chanA) [''hello''] = Some (sessions r3 chanA) \<and>
            sessions r3 = (sessions r0)(chanA := c') \<and>
            messageSizeHistogram r3 = messageSizeHistogram r0 @ [5] \<and>
            tokenBytesCounter r3 = (tokenBytesCounter r0)(t1 := tokenBytesCounter r0 t1 + 5) \<and>
            tokenMessagesCounter r3 =
              (tokenMessagesCounter r0)(t1 := tokenMessagesCounter r0 t1 + 1)))"
proof (intro conjI impI)
  assume "cache r token = Some (Conn conn) \<and> session conn = Some s \<and>
    SendData M r token body = Some (out, r')"
  then have "send_loop M token s (allocated r) body (make_buf r) = Some (out, r')"
    using SendData_bound [of r token conn s M body] by simp
  from send_loop_counts [OF this] show "\<exists>k c. k < length body \<and>
         writes M (sessions r s) (chunks (take k body)) = Some c \<and>
         list_all (\<lambda>w. 0 < length w \<and> length w \<le> 4096) (chunks (take k body)) \<and>
         messageSizeHistogram r' =
           messageSizeHistogram r @ map length (chunks (take k body)) \<and>
         tokenBytesCounter r' =
           (tokenBytesCounter r)
             (token := tokenBytesCounter r token + length (concat (chunks (take k body)))) \<and>
         tokenMessagesCounter r' =
           (tokenMessagesCounter r)
             (token := tokenMessagesCounter r token + length (chunks (take k body))) \<and>
         (sessions r' s = c \<or>
          fst (Write M c (fst (body ! k))) \<noteq> None \<and>
          sessions r' s = snd (Write M c (fst (body ! k))))"
    by (simp add: make_buf_fields)
next
  assume a: "(e = None \<or> e = Some EOF) \<and> Write M (sessions r0 chanA) ''hello'' = (None, c')"
  from a hello_scenario [of e M r0 chanA c' t1]
  show "fst (RegisterSession (RegisterToken r0 t1) t1 (Some chanA)) = None"
    by simp
next
  assume a: "(e = None \<or> e = Some EOF) \<and> Write M (sessions r0 chanA) ''hello'' = (None, c')"
  let ?r2 = "snd (RegisterSession (RegisterToken r0 t1) t1 (Some chanA))"
  from a have a1: "e = None \<or> e = Some EOF"
    and a2: "Write M (sessions r0 chanA) ''hello'' = (None, c')"
    by simp_all
  note hs = hello_scenario [OF a1 a2, of t1]
  from hs have sd: "SendData M ?r2 t1 [(''hello'', e), ([], Some EOF)]
          = Some (Return None, progress t1 chanA ?r2 [''hello''] c')"
    by (rule conjunct2)
  from hs have "RegisterSession (RegisterToken r0 t1) t1 (Some chanA)
           = (None, (RegisterToken r0 t1)\<lparr>cache := (cache r0)(t1 \<mapsto> Conn \<lparr>session = Some chanA\<rparr>)\<rparr>)"
    by (rule conjunct1)
  then have r2: "?r2 = (RegisterToken r0 t1)\<lparr>cache := (cache r0)(t1 \<mapsto> Conn \<lparr>session = Some chanA\<rparr>)\<rparr>"
    by simp
  have f: "writes M (sessions r0 chanA) [''hello''] = Some (sessions (progress t1 chanA ?r2 [''hello''] c') chanA) \<and>
        sessions (progress t1 chanA ?r2 [''hello''] c') = (sessions r0)(chanA := c') \<and>
        messageSizeHistogram (progress t1 chanA ?r2 [''hello''] c') = messageSizeHistogram r0 @ [5] \<and>
        tokenBytesCounter (progress t1 chanA ?r2 [''hello''] c') = (tokenBytesCounter r0)(t1 := tokenBytesCounter r0 t1 + 5) \<and>
        tokenMessagesCounter (progress t1 chanA ?r2 [''hello''] c') =
              (tokenMessagesCounter r0)(t1 := tokenMessagesCounter r0 t1 + 1)"
    using a2 unfolding r2 by (simp add: progress_fields RegisterToken_def eval_nat_numeral)
  with sd show "\<exists>r3. SendData M ?r2 t1 [(''hello'', e), ([], Some EOF)] = Some (Return None, r3) \<and>
            writes M (sessions r0 chanA) [''hello''] = Some (sessions r3 chanA) \<and>
            sessions r3 = (sessions r0)(chanA := c') \<and>
            messageSizeHistogram r3 = messageSizeHistogram r0 @ [5] \<and>
            tokenBytesCounter r3 = (tokenBytesCounter r0)(t1 := tokenBytesCounter r0 t1 + 5) \<and>
            tokenMessagesCounter r3 =
              (tokenMessagesCounter r0)(t1 := tokenMessagesCounter r0 t1 + 1)"
    by blast
qed

theorem SendData_counts_every_written_chunk_witness:
  "(\<exists>r'. SendData frames_melody relay_bound ''t1''
            [(''ab'', None), (''cde'', None), ([], Some (New ''boom''))]
            = Some (Return (Some (New ''boom'')), r') \<and>
          outbox (sessions r' 0) = [''ab'', ''cde''] \<and>
          (\<exists>k<3. messageSizeHistogram r' =
                   map length (chunks (take k
                     [(''ab'', None), (''cde'', None), ([], Some (New ''boom''))])))) \<and>
   (\<exists>r3. SendData frames_melody relay_bound ''t1'' [(''hello'', None), ([], Some EOF)]
            = Some (Return None, r3) \<and>
          outbox (sessions r3 0) = [''hello''] \<and>
          messageSizeHistogram r3 = [5] \<and>
          tokenBytesCounter r3 ''t1'' = 5 \<and>
          tokenMessagesCounter r3 ''t1'' = 1)"
proof -
  let ?B = "[(''ab'', None), (''cde'', None), ([], Some (New ''boom''))]"
  let ?r0 = "NewWSRelay (\<lambda>_. open_session)"
  note inst = SendData_counts_every_written_chunk
    [of relay_bound "''t1''" "\<lparr>session = Some 0\<rparr>" 0 frames_melody ?B
        "Return (Some (New ''boom''))" _ None ?r0 0
        "\<lparr>closed = False, outbox = [''hello'']\<rparr>" "''t1''"]
  have h1: "cache relay_bound ''t1'' = Some (Conn \<lparr>session = Some 0\<rparr>)"
    by (simp add: scenario_defs)
  have "\<exists>r'. SendData frames_melody relay_bound ''t1'' ?B
               = Some (Return (Some (New ''boom'')), r') \<and>
             outbox (sessions r' 0) = [''ab'', ''cde'']"
    by (simp add: scenario_defs)
  then obtain r' where
    h3: "SendData frames_melody relay_bound ''t1'' ?B = Some (Return (Some (New ''boom'')), r')"
    and ob: "outbox (sessions r' 0) = [''ab'', ''cde'']"
    by blast
  from inst [of r'] h1 h3
  obtain k where "k < length ?B"
    and "messageSizeHistogram r' = messageSizeHistogram relay_bound @ map length (chunks (take k ?B))"
    by auto
  then have k: "k < 3 \<and> messageSizeHistogram r' = map length (chunks (take k ?B))"
    by (simp add: scenario_defs)
  have w: "Write frames_melody (sessions ?r0 0) ''hello''
             = (None, \<lparr>closed = False, outbox = [''hello'']\<rparr>)"
    by (simp add: scenario_defs)
  from inst [of r'] w
  obtain r3 where "SendData frames_melody relay_bound ''t1'' [(''hello'', None), ([], Some EOF)]
            = Some (Return None, r3)"
    and "sessions r3 = (sessions ?r0)(0 := \<lparr>closed = False, outbox = [''hello'']\<rparr>)"
    and "messageSizeHistogram r3 = messageSizeHistogram ?r0 @ [5]"
    and "tokenBytesCounter r3 = (tokenBytesCounter ?r0)(''t1'' := tokenBytesCounter ?r0 ''t1'' + 5)"
    and "tokenMessagesCounter r3 =
              (tokenMessagesCounter ?r0)(''t1'' := tokenMessagesCounter ?r0 ''t1'' + 1)"
    unfolding relay_bound_def relay_issued_def by blast
  then have "SendData frames_melody relay_bound ''t1'' [(''hello'', None), ([], Some EOF)]
            = Some (Return None, r3) \<and>
          outbox (sessions r3 0) = [''hello''] \<and>
          messageSizeHistogram r3 = [5] \<and>
          tokenBytesCounter r3 ''t1'' = 5 \<and>
          tokenMessagesCounter r3 ''t1'' = 1"
    by (simp add: NewWSRelay_def)
  with h3 ob k show ?thesis by blast
qed

subsection \<open>Unknown and unbound tokens\<close>

text \<open>
  C3. For a token that is not in the table (never issued, disposed or expired) SendData
  returns the error \<open>token not found\<close> and the relay, all its metrics included, is as
  it was; for a token whose record has no session bound, SendData returns the error
  \<open>no session associated with this token\<close>, again with nothing changed.
\<close>

theorem SendData_unknown_or_unbound:
  "(cache r token = None \<longrightarrow>
      SendData M r token body = Some (Return (Some TokenNotFound), r)) \<and>
   (cache r token = Some (Conn conn) \<and> session conn = None \<longrightarrow>
      SendData M r token body = Some (Return (Some NoBoundChannel), r))"
  by (simp add: SendData_def)

theorem SendData_unknown_or_unbound_witness:
  "cache relay_issued ''unknown-token'' = None \<and>
   SendData frames_melody relay_issued ''unknown-token'' [(''x'', None), ([], Some EOF)]
     = Some (Return (Some TokenNotFound), relay_issued) \<and>
   cache (RegisterToken relay_issued ''t2'') ''t2'' = Some (Conn \<lparr>session = None\<rparr>) \<and>
   SendData frames_melody (RegisterToken relay_issued ''t2'') ''t2''
       [(''x'', None), ([], Some EOF)]
     = Some (Return (Some NoBoundChannel), RegisterToken relay_issued ''t2'')"
  using SendData_unknown_or_unbound [of relay_issued "''unknown-token''" frames_melody
      "[(''x'', None), ([], Some EOF)]" "\<lparr>session = None\<rparr>"]
    SendData_unknown_or_unbound [of "RegisterToken relay_issued ''t2''" "''t2''" frames_melody
      "[(''x'', None), ([], Some EOF)]" "\<lparr>session = None\<rparr>"]
  by (simp add: relay_issued_def RegisterToken_def NewWSRelay_def newWSRelayConn_def)

subsection \<open>Issuing a token\<close>

text \<open>
  C6. RegisterToken returns no error: for every relay and token it stores a record with
  no session under the token, adds exactly 1 to the counter of tokens issued and leaves
  the rest of the relay alone; a SendData for that token straight afterwards returns
  the error \<open>no session associated with this token\<close>.
\<close>

theorem RegisterToken_issues_unbound:
  "cache (RegisterToken r token) = (cache r)(token \<mapsto> Conn \<lparr>session = None\<rparr>) \<and>
   tokenCounter (RegisterToken r token) = tokenCounter r + 1 \<and>
   sessions (RegisterToken r token) = sessions r \<and>
   tokenRemovedCounter (RegisterToken r token) = tokenRemovedCounter r \<and>
   messageSizeHistogram (RegisterToken r token) = messageSizeHistogram r \<and>
   tokenBytesCounter (RegisterToken r token) = tokenBytesCounter r \<and>
   tokenMessagesCounter (RegisterToken r token) = tokenMessagesCounter r \<and>
   SendData M (RegisterToken r token) token body
     = Some (Return (Some NoBoundChannel), RegisterToken r token)"
  by (simp add: RegisterToken_def newWSRelayConn_def SendData_def)

subsection \<open>Binding a session\<close>

text \<open>
  C7. For a token whose record is in the table, RegisterSession returns no error and
  sets the session of the record to the one given, whether or not a session was bound
  before; a SendData on the token that then succeeds has written its chunks to the
  session bound last, and has touched no other session.
\<close>

theorem RegisterSession_overwrites_binding:
  assumes "cache r token = Some (Conn conn)"
  shows "RegisterSession r token sess
           = (None, r\<lparr>cache := (cache r)(token \<mapsto> Conn (conn\<lparr>session := sess\<rparr>))\<rparr>) \<and>
         (sess = Some s \<and>
          SendData M (snd (RegisterSession r token sess)) token body = Some (Return None, r'')
          \<longrightarrow> (\<exists>k<length body.
                 writes M (sessions r s) (chunks (take (Suc k) body)) = Some (sessions r'' s)) \<and>
               sessions r'' = (sessions r)(s := sessions r'' s))"
proof (intro conjI impI)
  from assms show rs: "RegisterSession r token sess
           = (None, r\<lparr>cache := (cache r)(token \<mapsto> Conn (conn\<lparr>session := sess\<rparr>))\<rparr>)"
    by (simp add: RegisterSession_def)
  let ?r1 = "r\<lparr>cache := (cache r)(token \<mapsto> Conn (conn\<lparr>session := sess\<rparr>))\<rparr>"
  assume a: "sess = Some s \<and>
          SendData M (snd (RegisterSession r token sess)) token body = Some (Return None, r'')"
  then have se: "sess = Some s"
    by (rule conjunct1)
  from a have sd0:
    "SendData M (snd (RegisterSession r token sess)) token body = Some (Return None, r'')"
    by (rule conjunct2)
  from sd0 have sd: "SendData M ?r1 token body = Some (Return None, r'')"
    unfolding rs by simp
  from se have c1: "cache ?r1 token = Some (Conn (conn\<lparr>session := Some s\<rparr>))" by simp
  have s1: "session (conn\<lparr>session := Some s\<rparr>) = Some s" by simp
  from SendData_success [OF c1 s1 sd] obtain k where k: "k < length body"
    and w: "writes M (sessions ?r1 s) (chunks (take (Suc k) body)) = Some (sessions r'' s)"
    and r'': "r'' = progress token s ?r1 (chunks (take (Suc k) body)) (sessions r'' s)"
    by blast
  from k w show "\<exists>k<length body.
                 writes M (sessions r s) (chunks (take (Suc k) body)) = Some (sessions r'' s)"
    by auto
  from r'' have "sessions r'' = sessions (progress token s ?r1 (chunks (take (Suc k) body)) (sessions r'' s))"
    by simp
  then show "sessions r'' = (sessions r)(s := sessions r'' s)"
    by (simp add: progress_fields)
qed

theorem RegisterSession_overwrites_binding_witness:
  "cache relay_bound ''t1'' = Some (Conn \<lparr>session = Some 0\<rparr>) \<and>
   RegisterSession relay_bound ''t1'' (Some 1)
     = (None, relay_bound\<lparr>cache := (cache relay_bound)(''t1'' \<mapsto> Conn \<lparr>session = Some 1\<rparr>)\<rparr>) \<and>
   (\<exists>r''. SendData frames_melody (snd (RegisterSession relay_bound ''t1'' (Some 1))) ''t1''
             [(''hello'', None), ([], Some EOF)] = Some (Return None, r'') \<and>
          outbox (sessions r'' 1) = [''hello''] \<and>
          outbox (sessions r'' 0) = [] \<and>
          sessions r'' = (sessions relay_bound)(1 := sessions r'' 1))"
proof -
  let ?B = "[(''hello'', None), ([], Some EOF)]"
  have h1: "cache relay_bound ''t1'' = Some (Conn \<lparr>session = Some 0\<rparr>)"
    by (simp add: scenario_defs)
  note inst = RegisterSession_overwrites_binding [OF h1, of "Some 1" 1 frames_melody ?B]
  have "\<exists>r''. SendData frames_melody (snd (RegisterSession relay_bound ''t1'' (Some 1))) ''t1'' ?B
               = Some (Return None, r'') \<and>
             outbox (sessions r'' 1) = [''hello''] \<and> outbox (sessions r'' 0) = []"
    by (simp add: scenario_defs)
  then obtain r'' where
    sd: "SendData frames_melody (snd (RegisterSession relay_bound ''t1'' (Some 1))) ''t1'' ?B
               = Some (Return None, r'')"
    and o1: "outbox (sessions r'' 1) = [''hello'']" and o0: "outbox (sessions r'' 0) = []"
    by blast
  from inst [of r''] sd have "sessions r'' = (sessions relay_bound)(1 := sessions r'' 1)"
    by blast
  moreover from inst [of r''] have "RegisterSession relay_bound ''t1'' (Some 1)
     = (None, relay_bound\<lparr>cache := (cache relay_bound)(''t1'' \<mapsto> Conn \<lparr>session = Some 1\<rparr>)\<rparr>)"
    by simp
  ultimately show ?thesis using h1 sd o1 o0 by blast
qed

subsection \<open>Disposing a token\<close>

lemma DisposeToken_then_not_found:
  "cache (DisposeToken r token) token = None \<and>
   SendData M (DisposeToken r token) token body
     = Some (Return (Some TokenNotFound), DisposeToken r token) \<and>
   RegisterSession (DisposeToken r token) token sess
     = (Some TokenNotFound, DisposeToken r token)"
  by (simp add: DisposeToken_def SendData_def RegisterSession_def)

lemma DisposeToken_table_idempotent:
  "cache (DisposeToken (DisposeToken r token) token) = cache (DisposeToken r token)"
  by (simp add: DisposeToken_def)

lemma DisposeToken_absent_table:
  "cache r token = None \<Longrightarrow> cache (DisposeToken r token) = cache r"
  by (auto simp: DisposeToken_def)

lemma DisposeToken_counts_each_call:
  "tokenRemovedCounter (DisposeToken r token) = tokenRemovedCounter r + 1"
  by (simp add: DisposeToken_def)

text \<open>
  C4. What DisposeToken does to the counter of removed tokens when there is nothing to
  remove. On a relay with the one token \<open>t1\<close>, disposing \<open>t1\<close> twice empties the
  table at the first call, leaves it empty at the second, and brings the counter from 0
  to 2; on a new relay, disposing a token that was never issued leaves the table empty
  and brings the counter to 1.
\<close>

theorem DisposeToken_counts_without_removal:
  "dom (cache relay_issued) = {''t1''} \<and>
   cache (DisposeToken relay_issued ''t1'') = Map.empty \<and>
   cache (DisposeToken (DisposeToken relay_issued ''t1'') ''t1'') = Map.empty \<and>
   tokenRemovedCounter relay_issued = 0 \<and>
   tokenRemovedCounter (DisposeToken relay_issued ''t1'') = 1 \<and>
   tokenRemovedCounter (DisposeToken (DisposeToken relay_issued ''t1'') ''t1'') = 2 \<and>
   cache (NewWSRelay (\<lambda>_. open_session)) = Map.empty \<and>
   cache (DisposeToken (NewWSRelay (\<lambda>_. open_session)) ''ghost'') = Map.empty \<and>
   tokenRemovedCounter (DisposeToken (NewWSRelay (\<lambda>_. open_session)) ''ghost'') = 1"
  by (simp add: DisposeToken_def relay_issued_def RegisterToken_def NewWSRelay_def)

subsection \<open>A read that returns bytes and an error\<close>

text \<open>
  After a chunk has been written with success the loop goes round again, whatever error
  the read returned with the bytes.
\<close>

lemma iteration_written_goes_on:
  assumes "data \<noteq> []" and "length data \<le> 4096"
    and "Write M (sessions r s) data = (None, c')"
  shows "iteration M token s b (data, err) r = Inr (rounds token s b r [data] c')"
  using assms by (simp add: iteration_def check_err_def rounds_def Let_def)

text \<open>
  C9. What SendData does when a read returns bytes together with an error. With \<open>t1\<close>
  bound to an open session, a reader that answers \<open>ab\<close> with the error \<open>boom\<close> and
  then no bytes with \<^verbatim>\<open>io.EOF\<close>: the call writes and counts \<open>ab\<close> and returns
  \<^verbatim>\<open>nil\<close>. After the first read alone the call has not returned, be the error
  \<open>boom\<close> or \<^verbatim>\<open>io.EOF\<close>: it reads once more.
\<close>

theorem SendData_loses_error_read_with_bytes:
  "cache relay_bound ''t1'' = Some (Conn \<lparr>session = Some 0\<rparr>) \<and>
   sessions relay_bound 0 = open_session \<and>
   SendData frames_melody relay_bound ''t1'' [(''ab'', Some (New ''boom'')), ([], Some EOF)]
     = Some (Return None,
         progress ''t1'' 0 relay_bound [''ab''] \<lparr>closed = False, outbox = [''ab'']\<rparr>) \<and>
   SendData frames_melody relay_bound ''t1'' [(''ab'', Some (New ''boom''))] = None \<and>
   SendData frames_melody relay_bound ''t1'' [(''ab'', Some EOF)] = None"
  by (simp add: scenario_defs progress_def rounds_def)

subsection \<open>The expiration callback and the sweep\<close>

text \<open>
  The callback answers \<^verbatim>\<open>true\<close> exactly for a record whose session is not nil and
  not closed, and increments the counter of removed tokens whenever it answers
  \<^verbatim>\<open>false\<close>. Its answer depends on the value and on the sessions only.
\<close>

lemma callback_keep:
  "fst (checkExpirationCallback M r key v) =
     (\<exists>conn s. v = Conn conn \<and> session conn = Some s \<and> \<not> IsClosed M (sessions r s))"
  by (cases v) (auto simp: checkExpirationCallback_def split: option.splits)

lemma callback_relay:
  "snd (checkExpirationCallback M r key v) =
     (if fst (checkExpirationCallback M r key v) then r
      else r\<lparr>tokenRemovedCounter := tokenRemovedCounter r + 1\<rparr>)"
  by (cases v) (auto simp: checkExpirationCallback_def split: option.splits)

lemma sweep_Cons:
  "sweep M (key # keys) r =
     sweep M keys
       (if evicted M r key then r\<lparr>cache := (cache r)(key := None)\<rparr>
        else if cache r key = None then r
        else r\<lparr>tokenRemovedCounter := tokenRemovedCounter r + 1\<rparr>)"
proof (cases "cache r key")
  case None
  then show ?thesis by (simp add: evicted_def)
next
  case (Some v)
  obtain expire r' where c: "checkExpirationCallback M r key v = (expire, r')"
    by (cases "checkExpirationCallback M r key v")
  with callback_relay [of M r key v]
  have r': "r' = (if expire then r else r\<lparr>tokenRemovedCounter := tokenRemovedCounter r + 1\<rparr>)"
    by simp
  from Some c r' show ?thesis by (simp add: evicted_def)
qed

lemma evicted_after:
  "evicted M (r\<lparr>cache := (cache r)(key := None)\<rparr>) k = (k \<noteq> key \<and> evicted M r k)"
  "evicted M (r\<lparr>tokenRemovedCounter := n\<rparr>) k = evicted M r k"
  by (auto simp: evicted_def callback_keep split: option.splits)

lemma sweep_sessions: "sessions (sweep M keys r) = sessions r"
proof (induction keys arbitrary: r)
  case Nil
  then show ?case by simp
next
  case (Cons key keys)
  show ?case unfolding sweep_Cons by (simp add: Cons.IH)
qed

lemma sweep_cache:
  "cache (sweep M keys r) key =
     (if key \<in> set keys \<and> evicted M r key then None else cache r key)"
proof (induction keys arbitrary: r)
  case Nil
  then show ?case by simp
next
  case (Cons k keys)
  show ?case unfolding sweep_Cons
    by (auto simp: Cons.IH evicted_after)
qed

text \<open>
  So a sweep removes every visited record that is bound to an open session, and keeps
  every record that has no session or a closed one.
\<close>

lemma sweep_removes_open_sessions:
  assumes "cache r key = Some (Conn conn)"
  shows "key \<in> set keys \<Longrightarrow> session conn = Some s \<Longrightarrow> \<not> IsClosed M (sessions r s) \<Longrightarrow>
           cache (sweep M keys r) key = None"
    and "session conn = None \<or> (\<exists>s. session conn = Some s \<and> IsClosed M (sessions r s)) \<Longrightarrow>
           cache (sweep M keys r) key = cache r key"
  using assms by (auto simp: sweep_cache evicted_def callback_keep)

lemmas expiring_defs = relay_expiring_def scenario_defs checkExpirationCallback_def

text \<open>
  C2. What the sweep does with the answers of the callback. On a relay where \<open>t1\<close> is
  bound to an open session, \<open>t2\<close> has no session and \<open>t3\<close> is bound to a closed
  session, the callback answers \<^verbatim>\<open>true\<close> for \<open>t1\<close> and \<^verbatim>\<open>false\<close> for the other
  two. A sweep that finds the three past their deadline removes \<open>t1\<close>, keeps \<open>t2\<close>
  and \<open>t3\<close>, and brings the counter of removed tokens from 0 to 2, for the two tokens
  it has kept; the next sweep brings it to 4.
\<close>

theorem sweep_removes_the_open_session:
  "cache relay_expiring ''t1'' = Some (Conn \<lparr>session = Some 0\<rparr>) \<and>
   \<not> IsClosed frames_melody (sessions relay_expiring 0) \<and>
   fst (checkExpirationCallback frames_melody relay_expiring ''t1''
          (Conn \<lparr>session = Some 0\<rparr>)) \<and>
   cache (sweep frames_melody [''t1'', ''t2'', ''t3''] relay_expiring) ''t1'' = None \<and>
   cache relay_expiring ''t2'' = Some (Conn \<lparr>session = None\<rparr>) \<and>
   \<not> fst (checkExpirationCallback frames_melody relay_expiring ''t2''
            (Conn \<lparr>session = None\<rparr>)) \<and>
   cache (sweep frames_melody [''t1'', ''t2'', ''t3''] relay_expiring) ''t2''
     = Some (Conn \<lparr>session = None\<rparr>) \<and>
   cache relay_expiring ''t3'' = Some (Conn \<lparr>session = Some 1\<rparr>) \<and>
   IsClosed frames_melody (sessions relay_expiring 1) \<and>
   \<not> fst (checkExpirationCallback frames_melody relay_expiring ''t3''
            (Conn \<lparr>session = Some 1\<rparr>)) \<and>
   cache (sweep frames_melody [''t1'', ''t2'', ''t3''] relay_expiring) ''t3''
     = Some (Conn \<lparr>session = Some 1\<rparr>) \<and>
   tokenRemovedCounter relay_expiring = 0 \<and>
   tokenRemovedCounter (sweep frames_melody [''t1'', ''t2'', ''t3''] relay_expiring) = 2 \<and>
   tokenRemovedCounter
     (sweep frames_melody [''t2'', ''t3'']
        (sweep frames_melody [''t1'', ''t2'', ''t3''] relay_expiring)) = 4"
  by (simp add: expiring_defs)

subsection \<open>What the table holds\<close>

lemma SendData_cache:
  assumes "SendData M r token body = Some (out, r')"
  shows "cache r' = cache r"
  using assms
  by (auto simp: SendData_def make_buf_fields split: option.splits dest: send_loop_cache)

lemma reachable_no_foreign:
  assumes "reachable M r"
  shows "cache r token \<noteq> Some Foreign"
  using assms
proof (induction arbitrary: token rule: reachable.induct)
  case (r_new ss)
  then show ?case by (simp add: NewWSRelay_def)
next
  case (r_token r t)
  then show ?case by (simp add: RegisterToken_def)
next
  case (r_session r t sess)
  then show ?case
    by (auto simp: RegisterSession_def split: option.splits)
next
  case (r_send r t body out r')
  then show ?case by (simp add: SendData_cache)
next
  case (r_dispose r t)
  then show ?case by (simp add: DisposeToken_def)
next
  case (r_sweep r keys)
  then show ?case by (simp add: sweep_cache)
next
  case (r_sessions r ss)
  then show ?case by simp
qed

text \<open>
  C8. In every state a relay can reach, every value in the table is a connection record:
  the type assertion that RegisterSession, SendData and the expiration callback make on a
  value of the table succeeds, and RegisterSession never returns the error
  \<open>failed to convert cached value to connection\<close>.
\<close>

theorem table_holds_connections_only:
  assumes "reachable M r"
  shows "cache r token \<noteq> Some Foreign \<and>
         (cache r token = Some v \<longrightarrow> (\<exists>conn. assert_wsRelayConn v = Some conn)) \<and>
         fst (RegisterSession r token sess) \<noteq> Some ConversionFailed"
proof (intro conjI impI)
  from assms show nf: "cache r token \<noteq> Some Foreign" by (rule reachable_no_foreign)
  {
    assume "cache r token = Some v"
    with nf show "\<exists>conn. assert_wsRelayConn v = Some conn" by (cases v) auto
  }
  show "fst (RegisterSession r token sess) \<noteq> Some ConversionFailed"
  proof (cases "cache r token")
    case None
    then show ?thesis by (simp add: RegisterSession_def)
  next
    case (Some a)
    with nf obtain conn where "a = Conn conn" by (cases a) auto
    with Some show ?thesis by (simp add: RegisterSession_def)
  qed
qed

theorem table_holds_connections_only_witness:
  "reachable frames_melody relay_bound \<and>
   cache relay_bound ''t1'' = Some (Conn \<lparr>session = Some 0\<rparr>) \<and>
   assert_wsRelayConn (Conn \<lparr>session = Some 0\<rparr>) = Some \<lparr>session = Some 0\<rparr> \<and>
   fst (RegisterSession relay_bound ''t1'' (Some 1)) \<noteq> Some ConversionFailed"
proof -
  have r: "reachable frames_melody relay_bound"
    unfolding relay_bound_def relay_issued_def
    by (intro reachable.intros)
  have c: "cache relay_bound ''t1'' = Some (Conn \<lparr>session = Some 0\<rparr>)"
    by (simp add: scenario_defs)
  from table_holds_connections_only [OF r, of "''t1''" "Conn \<lparr>session = Some 0\<rparr>" "Some 1"] c r
  show ?thesis by simp
qed

end
